theory Spec2Isabelle
  imports Complex_Main "HOL-Library.List_Lexorder" "HOL-Library.Char_ord"
begin

section \<open>Strings\<close>

text \<open>
  A Python \<open>str\<close> is modelled as a \<open>string\<close>, one \<open>char\<close> for each code point: the model
  covers the strings whose code points are below 256 (Latin-1), and \<open>length\<close> is
  Python's \<open>len\<close> on them. The character tests and the case mapping are those of
  Python on that range. A string with a code point from 256 on is outside the model.
\<close>

definition code :: "char \<Rightarrow> nat" where
  "code c = of_char c"

text \<open>
  \<open>str.isspace\<close>, which is also what \<open>str.strip()\<close>, \<open>str.split()\<close> and the pattern
  \<open>\s\<close> take for white space: tab to CR, the separators 0x1C to 0x1F, the space, NEL
  and the no-break space.
\<close>

definition isspace :: "char \<Rightarrow> bool" where
  "isspace c =
     ((9 \<le> code c \<and> code c \<le> 13) \<or> (28 \<le> code c \<and> code c \<le> 32) \<or>
      code c = 133 \<or> code c = 160)"

text \<open>The pattern \<open>\d\<close>: a decimal digit.\<close>

definition isdecimal :: "char \<Rightarrow> bool" where
  "isdecimal c = (48 \<le> code c \<and> code c \<le> 57)"

text \<open>\<open>str.isdigit\<close> also takes the superscripts 2, 3 and 1.\<close>

definition isdigit :: "char \<Rightarrow> bool" where
  "isdigit c = (isdecimal c \<or> code c = 178 \<or> code c = 179 \<or> code c = 185)"

definition isalpha :: "char \<Rightarrow> bool" where
  "isalpha c =
     ((65 \<le> code c \<and> code c \<le> 90) \<or> (97 \<le> code c \<and> code c \<le> 122) \<or>
      code c = 170 \<or> code c = 181 \<or> code c = 186 \<or>
      (192 \<le> code c \<and> code c \<le> 214) \<or> (216 \<le> code c \<and> code c \<le> 246) \<or>
      248 \<le> code c)"

text \<open>The pattern \<open>\w\<close>: letters, digits, the vulgar fractions and the underscore.\<close>

definition isword :: "char \<Rightarrow> bool" where
  "isword c =
     (isalpha c \<or> isdigit c \<or> (188 \<le> code c \<and> code c \<le> 190) \<or> code c = 95)"

definition lower_char :: "char \<Rightarrow> char" where
  "lower_char c =
     (if (65 \<le> code c \<and> code c \<le> 90) \<or> (192 \<le> code c \<and> code c \<le> 214) \<or>
         (216 \<le> code c \<and> code c \<le> 222)
      then char_of (code c + 32) else c)"

definition lower :: "string \<Rightarrow> string" where
  "lower s = map lower_char s"

definition strip :: "string \<Rightarrow> string" where
  "strip s = rev (dropWhile isspace (rev (dropWhile isspace s)))"

text \<open>\<open>str.split()\<close>: the maximal runs of characters that are not white space.\<close>

fun split_ws :: "string \<Rightarrow> string \<Rightarrow> string list" where
  "split_ws [] w = (if w = [] then [] else [w])"
| "split_ws (c # cs) w =
     (if isspace c then (if w = [] then split_ws cs [] else w # split_ws cs [])
      else split_ws cs (w @ [c]))"

definition str_split :: "string \<Rightarrow> string list" where
  "str_split s = split_ws s []"

text \<open>\<open>k in t\<close> on strings: \<open>k\<close> is a substring of \<open>t\<close>.\<close>

fun startswith :: "'a list \<Rightarrow> 'a list \<Rightarrow> bool" where
  "startswith t [] = True"
| "startswith [] (k # ks) = False"
| "startswith (c # cs) (k # ks) = (c = k \<and> startswith cs ks)"

fun contains :: "'a list \<Rightarrow> 'a list \<Rightarrow> bool" where
  "contains [] k = (k = [])"
| "contains (c # cs) k = (startswith (c # cs) k \<or> contains cs k)"

section \<open>Regular expressions\<close>

text \<open>
  The patterns of the program use character classes, sequence, alternation and the
  greedy quantifiers. \<open>matches r s\<close> lists what is left of \<open>s\<close> after each way of
  matching \<open>r\<close> at its start, in the order in which a backtracking matcher tries
  them: the left alternative first, one more repetition before stopping. A repetition
  stops at an iteration that consumes nothing.
\<close>

datatype regex =
    Chr "char \<Rightarrow> bool"
  | Eps
  | Seq regex regex
  | Alt regex regex
  | Star regex

fun matches :: "regex \<Rightarrow> string \<Rightarrow> string list" where
  "matches (Chr p) s = (case s of [] \<Rightarrow> [] | c # cs \<Rightarrow> if p c then [cs] else [])"
| "matches Eps s = [s]"
| "matches (Seq r1 r2) s = concat (map (matches r2) (matches r1 s))"
| "matches (Alt r1 r2) s = matches r1 s @ matches r2 s"
| "matches (Star r) s =
     concat (map (\<lambda>s'. if length s' < length s then matches (Star r) s' else [])
               (matches r s)) @ [s]"

text \<open>\<open>r?\<close>, \<open>r+\<close> and \<open>r{m,n}\<close>.\<close>

definition Opt :: "regex \<Rightarrow> regex" where
  "Opt r = Alt r Eps"

definition Plus :: "regex \<Rightarrow> regex" where
  "Plus r = Seq r (Star r)"

fun rep :: "nat \<Rightarrow> nat \<Rightarrow> regex \<Rightarrow> regex" where
  "rep 0 0 r = Eps"
| "rep 0 (Suc n) r = Opt (Seq r (rep 0 n r))"
| "rep (Suc m) 0 r = Chr (\<lambda>c. False)"
| "rep (Suc m) (Suc n) r = Seq r (rep m n r)"

fun seqs :: "regex list \<Rightarrow> regex" where
  "seqs [] = Eps"
| "seqs [r] = r"
| "seqs (r # rs) = Seq r (seqs rs)"

fun alts :: "regex list \<Rightarrow> regex" where
  "alts [] = Chr (\<lambda>c. False)"
| "alts [r] = r"
| "alts (r # rs) = Alt r (alts rs)"

text \<open>
  A literal string; \<open>ilit\<close> is a literal under the flag \<open>(?i)\<close>, where a character
  matches when it is the literal's character up to case.
\<close>

definition lit :: "string \<Rightarrow> regex" where
  "lit s = seqs (map (\<lambda>x. Chr (\<lambda>c. c = x)) s)"

definition ilit :: "string \<Rightarrow> regex" where
  "ilit s = seqs (map (\<lambda>x. Chr (\<lambda>c. lower_char c = lower_char x)) s)"

text \<open>The classes \<open>[abc]\<close>, \<open>[^abc]\<close>, \<open>[a-z]\<close> under \<open>(?i)\<close>, and the dot.\<close>

definition one_of :: "string \<Rightarrow> regex" where
  "one_of s = Chr (\<lambda>c. c \<in> set s)"

definition none_of :: "string \<Rightarrow> regex" where
  "none_of s = Chr (\<lambda>c. c \<notin> set s)"

definition irange :: "char \<Rightarrow> char \<Rightarrow> regex" where
  "irange lo hi =
     Chr (\<lambda>c. (lo \<le> c \<and> c \<le> hi) \<or> (lo \<le> lower_char c \<and> lower_char c \<le> hi))"

definition any_char :: regex where
  "any_char = Chr (\<lambda>c. c \<noteq> CHR 0x0A)"

fun tails :: "'a list \<Rightarrow> 'a list list" where
  "tails [] = [[]]"
| "tails (c # cs) = (c # cs) # tails cs"

text \<open>\<open>pattern.search(s)\<close> as a condition: the pattern matches at some position.\<close>

definition re_search :: "regex \<Rightarrow> string \<Rightarrow> bool" where
  "re_search r s = list_ex (\<lambda>t. matches r t \<noteq> []) (tails s)"

text \<open>
  \<open>pattern.match(s)\<close> as a condition, for a pattern written \<open>^(r)$\<close>: \<open>r\<close> matches at
  the start of \<open>s\<close> up to its end, or up to a line feed that ends \<open>s\<close> (Python's \<open>$\<close>).
\<close>

definition re_match_anchored :: "regex \<Rightarrow> string \<Rightarrow> bool" where
  "re_match_anchored r s = list_ex (\<lambda>rest. rest = [] \<or> rest = [CHR 0x0A]) (matches r s)"

section \<open>The knowledge base (storage.py)\<close>

type_synonym timestamp = string

text \<open>
  The dictionaries of the store are typed as the data model has them. A festival
  reference is \<open>{"name", "url", "date_scraped"}\<close>; a festival record of the store is
  the same with \<open>"artist_count"\<close> added. A classification is \<open>{"genres", "timbre"}\<close>,
  and an artist record carries these two fields among its six. A dictionary that lacks
  one of its keys is outside the model. The keys \<open>"name"\<close> and \<open>"url"\<close> of a festival
  are the fields \<open>f_name\<close> and \<open>f_url\<close>, those of \<open>festival_info\<close> are \<open>info_name\<close> and
  \<open>info_url\<close>, and the festival list of the store is \<open>kb_festivals\<close>.
\<close>

record festival_entry =
  f_name :: string
  f_url :: string
  date_scraped :: timestamp

record festival = festival_entry +
  artist_count :: nat

record classification =
  genres :: "string list"
  timbre :: "string list"

record artist = classification +
  name :: string
  festivals :: "festival_entry list"
  first_seen :: timestamp
  last_updated :: timestamp

record festival_info =
  info_name :: string
  info_url :: string

text \<open>
  A Python \<open>dict\<close> keeps its keys in insertion order: the artists of the store are an
  association list. Reading takes the entry of a key, assigning to a key that is
  present keeps its place, assigning to a new key appends.
\<close>

type_synonym ('k, 'v) dict = "('k \<times> 'v) list"

fun dict_get :: "('k, 'v) dict \<Rightarrow> 'k \<Rightarrow> 'v option" where
  "dict_get [] k = None"
| "dict_get ((k', v) # kvs) k = (if k' = k then Some v else dict_get kvs k)"

fun dict_set :: "('k, 'v) dict \<Rightarrow> 'k \<Rightarrow> 'v \<Rightarrow> ('k, 'v) dict" where
  "dict_set [] k v = [(k, v)]"
| "dict_set ((k', v') # kvs) k v =
     (if k' = k then (k, v) # kvs else (k', v') # dict_set kvs k v)"

definition dict_keys :: "('k, 'v) dict \<Rightarrow> 'k list" where
  "dict_keys d = map fst d"

record store =
  artists :: "(string, artist) dict"
  kb_festivals :: "festival list"
  metadata_version :: nat
  last_modified :: "timestamp option"

definition empty_data :: store where
  "empty_data = \<lparr>artists = [], kb_festivals = [], metadata_version = 1, last_modified = None\<rparr>"

definition normalize_name :: "string \<Rightarrow> string" where
  "normalize_name nm = lower (strip nm)"

text \<open>\<open>classifications.get(name, {"genres": [], "timbre": []})\<close>\<close>

definition classification_of :: "(string \<rightharpoonup> classification) \<Rightarrow> string \<Rightarrow> classification" where
  "classification_of classifications nm =
     (case classifications nm of
        None \<Rightarrow> \<lparr>genres = [], timbre = []\<rparr>
      | Some c \<Rightarrow> c)"

definition festival_entry_of :: "festival_info \<Rightarrow> timestamp \<Rightarrow> festival_entry" where
  "festival_entry_of festival_info now =
     \<lparr>f_name = info_name festival_info, f_url = info_url festival_info, date_scraped = now\<rparr>"

text \<open>
  The body of the loop of \<open>merge_artists\<close> over \<open>artist_names\<close>: one name folded into
  the artists of the store. A list is true in a Python condition when it is not empty.
\<close>

definition merge_name ::
  "timestamp \<Rightarrow> festival_info \<Rightarrow> (string \<rightharpoonup> classification) \<Rightarrow>
   (string, artist) dict \<Rightarrow> string \<Rightarrow> (string, artist) dict" where
  "merge_name now festival_info classifications arts nm =
     (let key = normalize_name nm;
          c = classification_of classifications nm;
          entry = festival_entry_of festival_info now
      in case dict_get arts key of
           Some a \<Rightarrow>
             (let a1 = (if info_url festival_info \<notin> set (map f_url (festivals a))
                        then a\<lparr>festivals := festivals a @ [entry]\<rparr> else a);
                  a2 = (if genres c \<noteq> []
                        then a1\<lparr>genres := genres c, timbre := timbre c\<rparr> else a1)
              in dict_set arts key (a2\<lparr>last_updated := now\<rparr>))
         | None \<Rightarrow>
             dict_set arts key
               \<lparr>genres = genres c, timbre = timbre c, name = nm, festivals = [entry],
                first_seen = now, last_updated = now\<rparr>)"

text \<open>
  \<open>merge_artists(data, artist_names, classifications, festival_info)\<close>. The clock
  reading \<open>now\<close> of the call is an argument.
\<close>

definition merge_artists ::
  "store \<Rightarrow> string list \<Rightarrow> (string \<rightharpoonup> classification) \<Rightarrow> festival_info \<Rightarrow>
   timestamp \<Rightarrow> store" where
  "merge_artists data artist_names classifications festival_info now =
     (let url_exists = list_ex (\<lambda>f. f_url f = info_url festival_info) (kb_festivals data);
          fs = (if \<not> url_exists
                then kb_festivals data @
                       [\<lparr>f_name = info_name festival_info, f_url = info_url festival_info,
                         date_scraped = now, artist_count = length artist_names\<rparr>]
                else kb_festivals data)
      in data\<lparr>kb_festivals := fs,
              artists := foldl (merge_name now festival_info classifications)
                           (artists data) artist_names\<rparr>)"

section \<open>The metadata service\<close>

text \<open>
  The service is reached by \<open>requests.get\<close>. A request is a search for a name with a
  result limit, or the tags of an artist id. A call either raises (a timeout, no
  connection) or gives a response: a status code and a body, which is \<open>None\<close> when
  \<open>resp.json()\<close> raises. Of a body the program reads the lists under \<open>"artists"\<close> and
  \<open>"tags"\<close> with \<open>.get(key, [])\<close>, so a missing list is the empty one. Of an artist it
  reads \<open>"id"\<close>, \<open>"name"\<close> and \<open>"score"\<close> with \<open>.get\<close>, and of a tag \<open>"name"\<close> and
  \<open>"count"\<close>: a missing key is \<open>None\<close>.
\<close>

datatype request = Search string nat | Tags string

record mb_artist =
  mb_id :: "string option"
  mb_name :: "string option"
  mb_score :: "int option"

record mb_tag =
  tag_name :: "string option"
  tag_count :: "int option"

record json_body =
  body_artists :: "mb_artist list"
  body_tags :: "mb_tag list"

datatype response = Failed | Response nat "json_body option"

text \<open>
  The service answers the \<open>i\<close>-th request of a run by \<open>service i request\<close>: it may answer
  the same request differently later. The program's state is the trace of the requests
  it has issued so far, each with its answer. \<open>time.sleep\<close> changes no value and is
  left out.
\<close>

type_synonym service = "nat \<Rightarrow> request \<Rightarrow> response"

type_synonym trace = "(request \<times> response) list"

datatype error = RequestException | HTTPError | JSONDecodeError | KeyError | ZeroDivisionError

section \<open>The classifier (classifier.py)\<close>

text \<open>
  \<open>TIMBRE_MAP\<close>, in the order of the dictionary. The one character outside ASCII is the
  e with grave accent of "musique concrete", code point 0xE8.
\<close>

definition TIMBRE_MAP :: "(string \<times> string list) list" where
  "TIMBRE_MAP =
     [(''energetic'', [''punk'', ''hardcore'', ''metal'', ''thrash'', ''power metal'', ''hard rock'',
                       ''drum and bass'', ''gabber'']),
      (''chill'', [''ambient'', ''chillout'', ''lo-fi'', ''downtempo'', ''trip-hop'', ''lounge'',
                   ''new age'', ''easy listening'']),
      (''dark'', [''gothic'', ''darkwave'', ''doom'', ''black metal'', ''death metal'', ''industrial'',
                  ''dark ambient'', ''witch house'']),
      (''dreamy'', [''shoegaze'', ''dream pop'', ''ethereal'', ''ambient pop'', ''slowcore'',
                    ''chamber pop'']),
      (''groovy'', [''funk'', ''disco'', ''house'', ''soul'', ''groove'', ''dancehall'', ''afrobeat'',
                    ''boogie'']),
      (''melodic'', [''pop'', ''singer-songwriter'', ''folk'', ''baroque pop'', ''power pop'',
                     ''indie pop'', ''soft rock'']),
      (''heavy'', [''metal'', ''sludge'', ''stoner rock'', ''grunge'', ''noise rock'', ''post-metal'',
                   ''djent'']),
      (''atmospheric'', [''post-rock'', ''ambient'', ''shoegaze'', ''space rock'', ''drone'',
                         ''ethereal wave'']),
      (''raw'', [''garage rock'', ''punk'', ''lo-fi'', ''noise'', ''grindcore'', ''crust punk'',
                 ''post-punk'']),
      (''experimental'', [''avant-garde'', ''experimental'', ''noise'', ''art rock'', ''free jazz'',
                          ''musique concr'' @ [CHR 0xE8] @ ''te'']),
      (''smooth'', [''r&b'', ''soul'', ''jazz'', ''smooth jazz'', ''neo soul'', ''quiet storm'',
                    ''bossa nova'']),
      (''uplifting'', [''trance'', ''euphoric'', ''gospel'', ''reggae'', ''ska'', ''happy hardcore'']),
      (''electronic'', [''electronic'', ''techno'', ''house'', ''edm'', ''synth'', ''electro'', ''idm'',
                        ''dubstep'']),
      (''acoustic'', [''acoustic'', ''folk'', ''unplugged'', ''bluegrass'', ''country'',
                      ''americana''])]"

text \<open>
  \<open>_search_artist(name)\<close>: the first artist of the search, \<open>None\<close> when there is none. On
  status 503 the function calls itself again, with no bound on the calls: it is
  defined as a partial function, and \<open>None\<close> as its value says that it does not return
  (the recursion limit of the interpreter is not modelled).
  \<open>resp.raise_for_status()\<close> raises for a status from 400 to 599.
\<close>

partial_function (option) search_artist ::
  "service \<Rightarrow> string \<Rightarrow> trace \<Rightarrow> ((error + mb_artist option) \<times> trace) option" where
  "search_artist service nm tr =
     (case service (length tr) (Search nm 1) of
        Failed \<Rightarrow> Some (Inl RequestException, tr @ [(Search nm 1, Failed)])
      | Response status body \<Rightarrow>
          if status = 503
          then search_artist service nm (tr @ [(Search nm 1, Response status body)])
          else if 400 \<le> status \<and> status < 600
          then Some (Inl HTTPError, tr @ [(Search nm 1, Response status body)])
          else (case body of
                  None \<Rightarrow> Some (Inl JSONDecodeError, tr @ [(Search nm 1, Response status body)])
                | Some b \<Rightarrow>
                    Some (Inr (case body_artists b of [] \<Rightarrow> None | a # _ \<Rightarrow> Some a),
                          tr @ [(Search nm 1, Response status body)])))"

text \<open>
  The list comprehension of \<open>_get_artist_tags\<close> over the sorted tags: the lowered names
  of the tags with a positive count; \<open>t["name"]\<close> raises when such a tag has no name.
\<close>

definition count_of :: "mb_tag \<Rightarrow> int" where
  "count_of t = (case tag_count t of None \<Rightarrow> 0 | Some n \<Rightarrow> n)"

fun tag_names :: "mb_tag list \<Rightarrow> error + string list" where
  "tag_names [] = Inr []"
| "tag_names (t # ts) =
     (if count_of t > 0
      then (case tag_name t of
              None \<Rightarrow> Inl KeyError
            | Some n \<Rightarrow> (case tag_names ts of Inl e \<Rightarrow> Inl e | Inr ns \<Rightarrow> Inr (lower n # ns)))
      else tag_names ts)"

text \<open>
  \<open>tags.sort(key=..., reverse=True)\<close> is a stable sort by descending count: tags with
  the same count keep their order.
\<close>

definition sort_tags :: "mb_tag list \<Rightarrow> mb_tag list" where
  "sort_tags tags = sort_key (\<lambda>t. - count_of t) tags"

declare search_artist.simps [code]

partial_function (option) get_artist_tags ::
  "service \<Rightarrow> string \<Rightarrow> trace \<Rightarrow> ((error + string list) \<times> trace) option" where
  "get_artist_tags service artist_id tr =
     (case service (length tr) (Tags artist_id) of
        Failed \<Rightarrow> Some (Inl RequestException, tr @ [(Tags artist_id, Failed)])
      | Response status body \<Rightarrow>
          if status = 503
          then get_artist_tags service artist_id (tr @ [(Tags artist_id, Response status body)])
          else if status \<noteq> 200
          then Some (Inr [], tr @ [(Tags artist_id, Response status body)])
          else (case body of
                  None \<Rightarrow>
                    Some (Inl JSONDecodeError, tr @ [(Tags artist_id, Response status body)])
                | Some b \<Rightarrow>
                    Some (tag_names (sort_tags (body_tags b)),
                          tr @ [(Tags artist_id, Response status body)])))"

declare get_artist_tags.simps [code]

text \<open>\<open>_NON_GENRE_PATTERN\<close>, written \<open>^(...)$\<close> in the source.\<close>

definition NON_GENRE_PATTERN :: regex where
  "NON_GENRE_PATTERN =
     alts [
        seqs [rep 4 4 (Chr isdecimal), Opt (lit ''s'')],
        lit ''american'',
        lit ''british'',
        lit ''english'',
        lit ''irish'',
        lit ''scottish'',
        lit ''welsh'',
        lit ''australian'',
        lit ''canadian'',
        lit ''french'',
        lit ''german'',
        lit ''italian'',
        lit ''spanish'',
        lit ''dutch'',
        lit ''swedish'',
        lit ''norwegian'',
        lit ''danish'',
        lit ''finnish'',
        lit ''japanese'',
        lit ''korean'',
        lit ''chinese'',
        lit ''brazilian'',
        lit ''mexican'',
        lit ''colombian'',
        lit ''argentine'',
        lit ''african'',
        lit ''nigerian'',
        lit ''south african'',
        lit ''jamaican'',
        lit ''cuban'',
        lit ''puerto rican'',
        lit ''indian'',
        lit ''russian'',
        lit ''polish'',
        lit ''belgian'',
        lit ''austrian'',
        lit ''swiss'',
        lit ''portuguese'',
        lit ''icelandic'',
        lit ''new zealand'',
        seqs [lit ''male vocalist'', Opt (lit ''s'')],
        seqs [lit ''female vocalist'', Opt (lit ''s'')],
        lit ''seen live'',
        seqs [lit ''favorite'', Opt (lit ''s'')],
        seqs [lit ''favourite'', Opt (lit ''s'')],
        seqs [lit ''under '', Plus (Chr isdecimal)],
        lit ''spotify'',
        seqs [Plus (Chr isdecimal), lit ''s'']]"

definition tags_to_genres :: "string list \<Rightarrow> string list" where
  "tags_to_genres tags =
     (if tags = [] then [''unknown'']
      else let filtered = filter (\<lambda>t. \<not> re_match_anchored NON_GENRE_PATTERN t) tags
           in if filtered = [] then take 3 tags else take 3 filtered)"

text \<open>
  \<open>keyword in tag_set or any(keyword in t for t in tag_set)\<close>: the second disjunct is the
  substring test.
\<close>

definition keyword_hit :: "string list \<Rightarrow> string \<Rightarrow> bool" where
  "keyword_hit tags keyword = (keyword \<in> set tags \<or> list_ex (\<lambda>t. contains t keyword) tags)"

fun timbre_loop :: "(string \<times> string list) list \<Rightarrow> string list \<Rightarrow> string list \<Rightarrow> string list" where
  "timbre_loop [] tags descriptors = descriptors"
| "timbre_loop ((descriptor, keywords) # rest) tags descriptors =
     (let descriptors' = (if list_ex (keyword_hit tags) keywords
                          then descriptors @ [descriptor] else descriptors)
      in if length descriptors' \<ge> 4 then descriptors'
         else timbre_loop rest tags descriptors')"

definition tags_to_timbre :: "string list \<Rightarrow> string list" where
  "tags_to_timbre tags =
     (if tags = [] then [''unknown'']
      else let descriptors = timbre_loop TIMBRE_MAP tags []
           in if descriptors = [] then [''dynamic''] else descriptors)"

definition unknown_pair :: classification where
  "unknown_pair = \<lparr>genres = [''unknown''], timbre = [''unknown'']\<rparr>"

text \<open>
  \<open>classify_artist(name)\<close>. An artist without an id, or with an empty one, is unknown.
\<close>

definition classify_artist ::
  "service \<Rightarrow> string \<Rightarrow> trace \<Rightarrow> ((error + classification) \<times> trace) option" where
  "classify_artist service nm tr =
     (case search_artist service nm tr of
        None \<Rightarrow> None
      | Some (Inl e, tr1) \<Rightarrow> Some (Inl e, tr1)
      | Some (Inr None, tr1) \<Rightarrow> Some (Inr unknown_pair, tr1)
      | Some (Inr (Some a), tr1) \<Rightarrow>
          (case mb_id a of
             None \<Rightarrow> Some (Inr unknown_pair, tr1)
           | Some artist_id \<Rightarrow>
               if artist_id = [] then Some (Inr unknown_pair, tr1)
               else (case get_artist_tags service artist_id tr1 of
                       None \<Rightarrow> None
                     | Some (Inl e, tr2) \<Rightarrow> Some (Inl e, tr2)
                     | Some (Inr tags, tr2) \<Rightarrow>
                         Some (Inr \<lparr>genres = tags_to_genres tags, timbre = tags_to_timbre tags\<rparr>,
                               tr2))))"

text \<open>
  The test of \<open>classify_batch\<close> for a name already classified: its key is in the store
  with genres that are neither empty nor \<open>["unknown"]\<close>.
\<close>

definition already_classified :: "store \<Rightarrow> string \<Rightarrow> bool" where
  "already_classified existing_data nm =
     (case dict_get (artists existing_data) (lower (strip nm)) of
        None \<Rightarrow> False
      | Some existing \<Rightarrow> genres existing \<noteq> [] \<and> genres existing \<noteq> [''unknown''])"

text \<open>
  The loop of \<open>classify_batch\<close>, with the classifications and the trace so far. An
  exception of \<open>classify_artist\<close> gives the unknown pair. The progress callback is an
  observer the caller may pass; it is left out.
\<close>

fun classify_loop ::
  "service \<Rightarrow> store \<Rightarrow> string list \<Rightarrow> (string \<rightharpoonup> classification) \<Rightarrow> trace \<Rightarrow>
   ((string \<rightharpoonup> classification) \<times> trace) option" where
  "classify_loop service existing_data [] classifications tr = Some (classifications, tr)"
| "classify_loop service existing_data (nm # names) classifications tr =
     (if already_classified existing_data nm
      then classify_loop service existing_data names classifications tr
      else (case classify_artist service nm tr of
              None \<Rightarrow> None
            | Some (Inl e, tr') \<Rightarrow>
                classify_loop service existing_data names (classifications(nm \<mapsto> unknown_pair)) tr'
            | Some (Inr result, tr') \<Rightarrow>
                classify_loop service existing_data names (classifications(nm \<mapsto> result)) tr'))"

definition classify_batch ::
  "service \<Rightarrow> string list \<Rightarrow> store \<Rightarrow> ((string \<rightharpoonup> classification) \<times> trace) option" where
  "classify_batch service names existing_data =
     classify_loop service existing_data names Map.empty []"

section \<open>The validator (ocr.py)\<close>

text \<open>
  \<open>_fuzzy_match(a, b)\<close>: the lengths differ by at most 2, and the difference of the
  lengths plus the number of positions at which the shorter string differs from the
  longer one is at most 2.
\<close>

definition fuzzy_match :: "'a list \<Rightarrow> 'a list \<Rightarrow> bool" where
  "fuzzy_match a b =
     (if \<bar>int (length a) - int (length b)\<bar> > 2 then False
      else let (shorter, longer) = (if length a \<le> length b then (a, b) else (b, a));
               diffs = length longer - length shorter +
                       length (filter (\<lambda>(c1, c2). c1 \<noteq> c2) (zip shorter longer))
           in diffs \<le> 2)"

text \<open>The loop of \<open>_validate_artist_musicbrainz\<close> over the artists of the answer.\<close>

definition name_of :: "mb_artist \<Rightarrow> string" where
  "name_of artist = (case mb_name artist of None \<Rightarrow> [] | Some n \<Rightarrow> n)"

definition score_of :: "mb_artist \<Rightarrow> int" where
  "score_of artist = (case mb_score artist of None \<Rightarrow> 0 | Some n \<Rightarrow> n)"

fun match_artists :: "string \<Rightarrow> mb_artist list \<Rightarrow> string option" where
  "match_artists name_lower [] = None"
| "match_artists name_lower (artist # rest) =
     (if score_of artist \<ge> 90 \<and> strip (lower (name_of artist)) = name_lower
      then Some (name_of artist)
      else if score_of artist \<ge> 80 \<and>
              (strip (lower (name_of artist)) = name_lower \<or>
               fuzzy_match name_lower (strip (lower (name_of artist))))
      then Some (name_of artist)
      else match_artists name_lower rest)"

text \<open>
  \<open>_validate_artist_musicbrainz(name, _retries)\<close>. Every exception inside is caught and
  gives \<open>None\<close>. The retry on status 503 stops when \<open>_retries\<close> has reached 3.
\<close>

function validate_artist_musicbrainz ::
  "service \<Rightarrow> string \<Rightarrow> nat \<Rightarrow> trace \<Rightarrow> string option \<times> trace" where
  "validate_artist_musicbrainz service nm retries tr =
     (case service (length tr) (Search nm 3) of
        Failed \<Rightarrow> (None, tr @ [(Search nm 3, Failed)])
      | Response status body \<Rightarrow>
          if status = 503 \<and> retries < 3
          then validate_artist_musicbrainz service nm (retries + 1)
                 (tr @ [(Search nm 3, Response status body)])
          else if status \<noteq> 200
          then (None, tr @ [(Search nm 3, Response status body)])
          else (case body of
                  None \<Rightarrow> (None, tr @ [(Search nm 3, Response status body)])
                | Some b \<Rightarrow>
                    (match_artists (strip (lower nm)) (body_artists b),
                     tr @ [(Search nm 3, Response status body)])))"
  by pat_completeness auto
termination
  by (relation "measure (\<lambda>(service, nm, retries, tr). 3 - retries)") auto

declare validate_artist_musicbrainz.simps [simp del]

section \<open>The noise filter (ocr.py)\<close>

text \<open>
  \<open>_DATE_PATTERN\<close> and \<open>_POSTER_NOISE\<close>, both under the flag \<open>(?i)\<close> and written
  \<open>^(...)$\<close> in the source. The class of the date pattern that holds the hyphen also holds the en dash, a code
  point outside the model.
\<close>

definition DATE_PATTERN :: regex where
  "DATE_PATTERN =
     alts [
        seqs [rep 1 2 (Chr isdecimal), one_of ''/-.'', rep 1 2 (Chr isdecimal),
          Opt (seqs [one_of ''/-.'', rep 2 4 (Chr isdecimal)])],
        seqs [rep 1 2 (Chr isdecimal), Star (Chr isspace), Opt (alts [ilit ''st'',
          ilit ''nd'', ilit ''rd'', ilit ''th'']), Star (Chr isspace), Opt (seqs [ilit ''of'',
          Plus (Chr isspace)]), alts [ilit ''jan'', ilit ''feb'', ilit ''mar'', ilit ''apr'',
          ilit ''may'', ilit ''jun'', ilit ''jul'', ilit ''aug'', ilit ''sep'', ilit ''oct'',
          ilit ''nov'', ilit ''dec''], Star (Chr isword)],
        seqs [alts [ilit ''jan'', ilit ''feb'', ilit ''mar'', ilit ''apr'', ilit ''may'',
          ilit ''jun'', ilit ''jul'', ilit ''aug'', ilit ''sep'', ilit ''oct'', ilit ''nov'',
          ilit ''dec''], Star (Chr isword), Plus (Chr isspace), rep 1 2 (Chr isdecimal),
          Star (Chr isspace), Opt (alts [ilit ''st'', ilit ''nd'', ilit ''rd'', ilit ''th'']),
          Opt (seqs [Star (Chr isspace), one_of ''-'', Star (Chr isspace),
          rep 1 2 (Chr isdecimal), Star (Chr isspace), Opt (alts [ilit ''st'', ilit ''nd'',
          ilit ''rd'', ilit ''th''])])],
        seqs [alts [ilit ''mon'', ilit ''tue'', ilit ''wed'', ilit ''thu'', ilit ''fri'',
          ilit ''sat'', ilit ''sun''], Star (Chr isword), Plus (Chr isspace),
          rep 1 2 (Chr isdecimal)],
        seqs [rep 1 2 (Chr isdecimal), Star (Chr isspace), alts [ilit ''st'', ilit ''nd'',
          ilit ''rd'', ilit ''th''], Plus (Chr isspace), alts [ilit ''mon'', ilit ''tue'',
          ilit ''wed'', ilit ''thu'', ilit ''fri'', ilit ''sat'', ilit ''sun''],
          Star (Chr isword)],
        seqs [lit ''20'', rep 2 2 (Chr isdecimal)],
        seqs [lit ''19'', rep 2 2 (Chr isdecimal)]]"

definition POSTER_NOISE :: regex where
  "POSTER_NOISE =
     alts [
        seqs [ilit ''present'', Opt (ilit ''s'')],
        ilit ''featuring'',
        seqs [ilit ''feat'', Opt (lit ''.'')],
        seqs [ilit ''ft'', Opt (lit ''.'')],
        ilit ''with'',
        ilit ''and more'',
        seqs [ilit ''ticket'', Opt (ilit ''s'')],
        seqs [ilit ''buy'', Plus (Chr isspace), ilit ''now''],
        seqs [ilit ''on'', Plus (Chr isspace), ilit ''sale''],
        seqs [ilit ''sold'', Plus (Chr isspace), ilit ''out''],
        ilit ''presale'',
        ilit ''vip'',
        seqs [ilit ''general'', Plus (Chr isspace), ilit ''admission''],
        seqs [ilit ''early'', Plus (Chr isspace), ilit ''bird''],
        seqs [ilit ''main'', Plus (Chr isspace), ilit ''stage''],
        seqs [ilit ''stage'', Star (Chr isspace), Star (Chr isdecimal)],
        ilit ''tent'',
        ilit ''arena'',
        seqs [ilit ''day'', Star (Chr isspace), Plus (Chr isdecimal)],
        seqs [ilit ''day'', Plus (Chr isspace), ilit ''one''],
        seqs [ilit ''day'', Plus (Chr isspace), ilit ''two''],
        seqs [ilit ''day'', Plus (Chr isspace), ilit ''three''],
        seqs [ilit ''door'', Opt (ilit ''s''), Plus (Chr isspace), ilit ''open''],
        seqs [ilit ''set'', Plus (Chr isspace), ilit ''time'', Opt (ilit ''s'')],
        ilit ''schedule'',
        seqs [ilit ''line'', Star (Chr isspace), ilit ''up''],
        seqs [ilit ''sponsored'', Plus (Chr isspace), ilit ''by''],
        seqs [ilit ''presented'', Plus (Chr isspace), ilit ''by''],
        seqs [ilit ''powered'', Plus (Chr isspace), ilit ''by''],
        seqs [ilit ''follow'', Plus (Chr isspace), ilit ''us''],
        ilit ''share'',
        ilit ''copyright'',
        lit [CHR 0xA9],
        seqs [ilit ''all'', Plus (Chr isspace), ilit ''rights''],
        ilit ''terms'',
        ilit ''privacy'',
        ilit ''cookie'',
        ilit ''info'',
        ilit ''www.'',
        ilit ''.com'',
        seqs [ilit ''sign'', Plus (Chr isspace), ilit ''up''],
        ilit ''subscribe'',
        ilit ''newsletter'',
        ilit ''rsvp'',
        seqs [ilit ''more'', Plus (Chr isspace), alts [ilit ''info'', seqs [ilit ''artist'',
          Opt (ilit ''s'')], seqs [ilit ''act'', Opt (ilit ''s'')], ilit ''tba'',
          ilit ''tbc'']],
        ilit ''free'',
        seqs [ilit ''age'', Opt (ilit ''s''), Plus (Chr isspace), Chr isdecimal],
        seqs [ilit ''all'', Plus (Chr isspace), ilit ''ages''],
        lit ''18+'',
        lit ''21+'',
        ilit ''parking'',
        ilit ''camping'',
        ilit ''lodging'',
        ilit ''directions'',
        ilit ''map'',
        ilit ''food'',
        ilit ''drink'',
        ilit ''merch'',
        ilit ''vendor'',
        seqs [ilit ''fest'', Opt (ilit ''ival''), Opt (seqs [Plus (Chr isspace),
          rep 4 4 (Chr isdecimal)])],
        seqs [ilit ''music'', Plus (Chr isspace), ilit ''festival''],
        seqs [ilit ''phase'', Plus (Chr isspace), Chr isdecimal],
        ilit ''announcement'',
        ilit ''reveal'',
        seqs [Plus (irange (CHR ''a'') (CHR ''z'')), lit ''.'', alts [ilit ''com'',
          ilit ''org'', ilit ''net'', ilit ''co'', ilit ''io'', ilit ''uk'']],
        seqs [lit ''#'', Plus (Chr isword)]]"

text \<open>\<open>_SENTENCE_CHARS\<close> and \<open>_MULTI_COMMA\<close>.\<close>

definition SENTENCE_CHARS :: regex where
  "SENTENCE_CHARS =
     one_of ''.!?;''"

definition MULTI_COMMA :: regex where
  "MULTI_COMMA =
     seqs [lit '','', Star any_char, lit '','']"

text \<open>
  \<open>_is_ocr_noise(text)\<close>. The test \<open>digit_count > len(text) * 0.5\<close> compares an integer
  with half an integer: it is \<open>2 * digit_count > len(text)\<close>.
\<close>

definition is_ocr_noise :: "string \<Rightarrow> bool" where
  "is_ocr_noise text0 =
     (let text = strip text0 in
      if text = [] then True
      else if length text < 2 then True
      else if re_search SENTENCE_CHARS text then True
      else if re_search MULTI_COMMA text then True
      else if CHR '':'' \<in> set text then True
      else if re_match_anchored DATE_PATTERN text then True
      else if re_match_anchored POSTER_NOISE text then True
      else if 2 * length (filter isdigit text) > length text then True
      else if length (str_split text) > 6 then True
      else if length (filter isalpha text) < 2 then True
      else False)"

section \<open>The name normalizer (app.py)\<close>

text \<open>
  \<open>re.split(pattern, s)\<close> and \<open>re.sub(pattern, '', s)\<close>: the string is scanned from the
  left, and at each position the first match that a backtracking matcher finds is
  taken. The two patterns of \<open>_clean_artist_names\<close> match no empty string; a match
  that consumes nothing is passed over here.
\<close>

fun re_split :: "regex \<Rightarrow> string \<Rightarrow> string \<Rightarrow> string list" where
  "re_split r [] piece = [piece]"
| "re_split r (c # cs) piece =
     (case matches r (c # cs) of
        [] \<Rightarrow> re_split r cs (piece @ [c])
      | rest # _ \<Rightarrow>
          if length rest < length (c # cs) then piece # re_split r rest []
          else re_split r cs (piece @ [c]))"

fun re_remove :: "regex \<Rightarrow> string \<Rightarrow> string" where
  "re_remove r [] = []"
| "re_remove r (c # cs) =
     (case matches r (c # cs) of
        [] \<Rightarrow> c # re_remove r cs
      | rest # _ \<Rightarrow>
          if length rest < length (c # cs) then re_remove r rest
          else c # re_remove r cs)"

text \<open>The patterns \<open>\s*[Bb]2[Bb]\s*\<close> and \<open>\s*\([^)]*\)\<close>.\<close>

definition B2B :: regex where
  "B2B =
     seqs [Star (Chr isspace), one_of ''Bb'', lit ''2'', one_of ''Bb'', Star (Chr isspace)]"

definition PARENS :: regex where
  "PARENS =
     seqs [Star (Chr isspace), lit ''('', Star (none_of '')''), lit '')'']"

text \<open>The inner loop of \<open>_clean_artist_names\<close>: the cleaned parts of one name.\<close>

definition clean_parts :: "string \<Rightarrow> string list" where
  "clean_parts nm =
     filter (\<lambda>part. part \<noteq> []) (map (\<lambda>part. strip (re_remove PARENS part)) (re_split B2B nm []))"

text \<open>The second loop: the names whose lowered form has not been seen.\<close>

fun dedupe :: "string list \<Rightarrow> string set \<Rightarrow> string list" where
  "dedupe [] seen = []"
| "dedupe (nm # rest) seen =
     (if lower nm \<notin> seen then nm # dedupe rest (insert (lower nm) seen)
      else dedupe rest seen)"

definition clean_artist_names :: "string list \<Rightarrow> string list" where
  "clean_artist_names names = dedupe (concat (map clean_parts names)) {}"

section \<open>The recommender (app.py)\<close>









section \<open>Sample data\<close>

definition daft_punk :: artist where
  "daft_punk =
     \<lparr>genres = [''house'', ''french house'', ''electronic''], timbre = [''groovy'', ''electronic''],
      name = ''Daft Punk'', festivals = [], first_seen = ''t0'', last_updated = ''t0''\<rparr>"

definition daft_store :: store where
  "daft_store = empty_data\<lparr>artists := [(''daft punk'', daft_punk)]\<rparr>"

definition x_test :: festival_info where
  "x_test = \<lparr>info_name = ''X Fest'', info_url = ''https://x.test''\<rparr>"

definition daft_punk_tags :: "mb_tag list" where
  "daft_punk_tags =
     [\<lparr>tag_name = Some ''french'', tag_count = Some 5\<rparr>,
      \<lparr>tag_name = Some ''House'', tag_count = Some 12\<rparr>,
      \<lparr>tag_name = Some ''seen live'', tag_count = Some 0\<rparr>,
      \<lparr>tag_name = Some ''electronic'', tag_count = Some 9\<rparr>]"

text \<open>A service that knows one artist and is never busy.\<close>

definition sample_service :: service where
  "sample_service i req =
     (case req of
        Search nm limit \<Rightarrow>
          if lower nm = ''daft punk''
          then Response 200 (Some \<lparr>body_artists =
                 [\<lparr>mb_id = Some ''056e4f3e'', mb_name = Some ''Daft Punk'', mb_score = Some 100\<rparr>],
                 body_tags = []\<rparr>)
          else Response 200 (Some \<lparr>body_artists = [], body_tags = []\<rparr>)
      | Tags artist_id \<Rightarrow> Response 200 (Some \<lparr>body_artists = [], body_tags = daft_punk_tags\<rparr>))"

text \<open>A service that answers 503 to every request, and one that does so five times.\<close>

definition always_503 :: service where
  "always_503 i req = Response 503 None"

definition busy_service :: service where
  "busy_service i req = (if i < 5 then Response 503 None else sample_service i req)"

text \<open>A service whose search gives two candidates for a misread name.\<close>

definition typo_service :: service where
  "typo_service i req =
     Response 200 (Some \<lparr>body_artists =
        [\<lparr>mb_id = Some ''0ab1'', mb_name = Some ''Daft Funk'', mb_score = Some 95\<rparr>,
         \<lparr>mb_id = Some ''056e4f3e'', mb_name = Some ''Daft Punk'', mb_score = Some 85\<rparr>],
        body_tags = []\<rparr>)"





section \<open>Notions used in the statements\<close>

text \<open>
  An artist of the dictionary lists the url among its festival references; the festival
  references of every artist, key by key.
\<close>

definition has_url :: "string \<Rightarrow> (string, artist) dict \<Rightarrow> string \<Rightarrow> bool" where
  "has_url url arts key =
     (case dict_get arts key of None \<Rightarrow> False | Some a \<Rightarrow> url \<in> set (map f_url (festivals a)))"

definition fests :: "(string, artist) dict \<Rightarrow> (string, festival_entry list) dict" where
  "fests arts = map (\<lambda>(k, a). (k, festivals a)) arts"

text \<open>
  A classification with one to three genres and one to four timbre descriptors.
\<close>

definition well_formed :: "classification \<Rightarrow> bool" where
  "well_formed c =
     (genres c \<noteq> [] \<and> length (genres c) \<le> 3 \<and> timbre c \<noteq> [] \<and> length (timbre c) \<le> 4)"

text \<open>
  The kinds of the exchanges of a trace. An answer to a search carries an id when
  \<open>_search_artist\<close> gets from it an artist whose id is not empty.
\<close>

definition is_search :: "request \<times> response \<Rightarrow> bool" where
  "is_search e = (case fst e of Search nm limit \<Rightarrow> True | Tags artist_id \<Rightarrow> False)"

definition is_tags :: "request \<times> response \<Rightarrow> bool" where
  "is_tags e = (case fst e of Search nm limit \<Rightarrow> False | Tags artist_id \<Rightarrow> True)"

definition carries_id :: "response \<Rightarrow> bool" where
  "carries_id r =
     (case r of
        Failed \<Rightarrow> False
      | Response status body \<Rightarrow>
          \<not> (400 \<le> status \<and> status < 600) \<and>
          (case body of
             None \<Rightarrow> False
           | Some b \<Rightarrow>
               (case body_artists b of
                  [] \<Rightarrow> False
                | a # _ \<Rightarrow>
                    (case mb_id a of None \<Rightarrow> False | Some artist_id \<Rightarrow> artist_id \<noteq> []))))"

definition found_id :: "request \<times> response \<Rightarrow> bool" where
  "found_id e = (is_search e \<and> carries_id (snd e))"

text \<open>
  The acceptance rule of the validator in the words of the specification. Two names
  are equal up to case and surrounding white space; the bounded edit-distance check
  compares the lengths and counts the positions at which the two strings differ.
\<close>

definition names_equal :: "string \<Rightarrow> string \<Rightarrow> bool" where
  "names_equal q n = (strip (lower n) = strip (lower q))"

definition length_difference :: "'a list \<Rightarrow> 'a list \<Rightarrow> nat" where
  "length_difference a b =
     (if length a \<le> length b then length b - length a else length a - length b)"

definition mismatches :: "'a list \<Rightarrow> 'a list \<Rightarrow> nat" where
  "mismatches a b = length (filter (\<lambda>i. a ! i \<noteq> b ! i) [0..<min (length a) (length b)])"

definition bounded_edit_check :: "'a list \<Rightarrow> 'a list \<Rightarrow> bool" where
  "bounded_edit_check a b =
     (length_difference a b \<le> 2 \<and> mismatches a b + length_difference a b \<le> 2)"

definition spec_accepts :: "string \<Rightarrow> mb_artist \<Rightarrow> bool" where
  "spec_accepts q cand =
     ((score_of cand \<ge> 90 \<and> names_equal q (name_of cand)) \<or>
      (score_of cand \<ge> 80 \<and>
       (names_equal q (name_of cand) \<or>
        bounded_edit_check (strip (lower q)) (strip (lower (name_of cand))))))"

text \<open>
  The answer the specification gives for a query and the last response of the service:
  the name, as the service spells it, of the first candidate it accepts; none when no
  candidate is accepted, when the request failed, when the status is not 200 or when
  the body cannot be read.
\<close>

definition first_accepted :: "string \<Rightarrow> mb_artist list \<Rightarrow> string option" where
  "first_accepted q cands =
     (case filter (spec_accepts q) cands of [] \<Rightarrow> None | cand # _ \<Rightarrow> Some (name_of cand))"

definition spec_answer :: "string \<Rightarrow> response \<Rightarrow> string option" where
  "spec_answer q r =
     (case r of
        Failed \<Rightarrow> None
      | Response status body \<Rightarrow>
          if status \<noteq> 200 then None
          else (case body of None \<Rightarrow> None | Some b \<Rightarrow> first_accepted q (body_artists b)))"



section \<open>Properties of the store\<close>

subsection \<open>Dictionaries\<close>

lemma dict_keys_set_in:
  "k \<in> set (dict_keys d) \<Longrightarrow> dict_keys (dict_set d k v) = dict_keys d"
  by (induction d) (force simp: dict_keys_def)+

lemma dict_keys_set_notin:
  "k \<notin> set (dict_keys d) \<Longrightarrow> dict_keys (dict_set d k v) = dict_keys d @ [k]"
  by (induction d) (auto simp: dict_keys_def)

lemma dict_get_set:
  "dict_get (dict_set d k v) k' = (if k' = k then Some v else dict_get d k')"
  by (induction d) auto

lemma dict_get_None: "(dict_get d k = None) = (k \<notin> set (dict_keys d))"
  by (induction d) (force simp: dict_keys_def)+

lemma dict_get_Some_in: "dict_get d k = Some v \<Longrightarrow> k \<in> set (dict_keys d)"
  using dict_get_None [of d k] by auto

lemma dict_set_same: "dict_get d k = Some v \<Longrightarrow> dict_set d k v = d"
  by (induction d) (auto split: if_splits)

lemma dict_set_map:
  "map (\<lambda>(k, a). (k, f a)) (dict_set d k v) = dict_set (map (\<lambda>(k, a). (k, f a)) d) k (f v)"
  by (induction d) auto

lemma dict_get_map:
  "dict_get (map (\<lambda>(k, a). (k, f a)) d) k = map_option f (dict_get d k)"
  by (induction d) auto

subsection \<open>One name merged\<close>

lemma merge_name_get_other:
  "k \<noteq> normalize_name nm \<Longrightarrow> dict_get (merge_name now fi cls arts nm) k = dict_get arts k"
  by (simp add: merge_name_def Let_def dict_get_set split: option.split)

lemma merge_name_new:
  assumes "dict_get arts (normalize_name nm) = None"
  shows "dict_get (merge_name now fi cls arts nm) (normalize_name nm) =
     Some \<lparr>genres = genres (classification_of cls nm), timbre = timbre (classification_of cls nm),
           name = nm, festivals = [festival_entry_of fi now], first_seen = now,
           last_updated = now\<rparr>"
  using assms by (simp add: merge_name_def Let_def dict_get_set)

lemma merge_name_keys:
  "dict_keys (merge_name now fi cls arts nm) =
     (if normalize_name nm \<in> set (dict_keys arts) then dict_keys arts
      else dict_keys arts @ [normalize_name nm])"
  by (auto simp: merge_name_def Let_def dict_keys_set_in dict_keys_set_notin dict_get_None
      dest: dict_get_Some_in split: option.splits)

text \<open>The keys of the association list stay distinct, as those of a dictionary are.\<close>

lemma merge_artists_distinct:
  assumes "distinct (dict_keys (artists d))"
  shows "distinct (dict_keys (artists (merge_artists d ns cls fi now)))"
proof -
  have "distinct (dict_keys arts) \<Longrightarrow>
        distinct (dict_keys (foldl (merge_name now fi cls) arts ns))" for arts
    by (induction ns arbitrary: arts) (auto simp: merge_name_keys)
  with assms show ?thesis
    by (simp add: merge_artists_def Let_def)
qed

lemma merge_name_keeps_genres:
  assumes "dict_get arts key = Some a"
    and "normalize_name nm = key \<longrightarrow> genres (classification_of cls nm) = []"
  shows "\<exists>a'. dict_get (merge_name now fi cls arts nm) key = Some a' \<and>
              genres a' = genres a \<and> timbre a' = timbre a \<and> name a' = name a \<and>
              first_seen a' = first_seen a"
  using assms
  by (cases "normalize_name nm = key")
     (auto simp: merge_name_def Let_def dict_get_set split: option.splits)

lemma foldl_keeps_genres:
  assumes "dict_get arts key = Some a"
    and "\<forall>n \<in> set ns. normalize_name n = key \<longrightarrow> genres (classification_of cls n) = []"
  shows "\<exists>a'. dict_get (foldl (merge_name now fi cls) arts ns) key = Some a' \<and>
              genres a' = genres a \<and> timbre a' = timbre a \<and> name a' = name a \<and>
              first_seen a' = first_seen a"
  using assms
proof (induction ns arbitrary: arts a)
  case Nil
  then show ?case by simp
next
  case (Cons n ns)
  from merge_name_keeps_genres [of arts key a n cls now fi] Cons.prems
  obtain a1 where a1: "dict_get (merge_name now fi cls arts n) key = Some a1"
    "genres a1 = genres a" "timbre a1 = timbre a" "name a1 = name a"
    "first_seen a1 = first_seen a"
    by auto
  from Cons.IH [OF a1(1)] Cons.prems(2) a1 show ?case
    by auto
qed

lemma foldl_get_other:
  "key \<notin> normalize_name ` set ns \<Longrightarrow>
   dict_get (foldl (merge_name now fi cls) arts ns) key = dict_get arts key"
  by (induction ns arbitrary: arts) (auto simp: merge_name_get_other)

subsection \<open>Festival references\<close>

lemma merge_name_has_url_self:
  "has_url (info_url fi) (merge_name now fi cls arts nm) (normalize_name nm)"
  by (simp add: merge_name_def Let_def dict_get_set has_url_def festival_entry_of_def
      split: option.split)

lemma merge_name_has_url_mono:
  "has_url url arts k \<Longrightarrow> has_url url (merge_name now fi cls arts nm) k"
  by (cases "k = normalize_name nm")
     (auto simp add: merge_name_def Let_def dict_get_set has_url_def split: option.splits)

lemma foldl_has_url_mono:
  "has_url url arts k \<Longrightarrow> has_url url (foldl (merge_name now fi cls) arts ns) k"
  by (induction ns arbitrary: arts) (auto simp: merge_name_has_url_mono)

lemma foldl_has_url_all:
  "n \<in> set ns \<Longrightarrow>
   has_url (info_url fi) (foldl (merge_name now fi cls) arts ns) (normalize_name n)"
  by (induction ns arbitrary: arts) (auto simp: foldl_has_url_mono merge_name_has_url_self)

lemma merge_name_fests_fixed:
  assumes "has_url (info_url fi) arts (normalize_name nm)"
  shows "fests (merge_name now fi cls arts nm) = fests arts"
proof -
  from assms obtain a where a: "dict_get arts (normalize_name nm) = Some a"
    and u: "info_url fi \<in> set (map f_url (festivals a))"
    by (auto simp: has_url_def split: option.splits)
  have "dict_get (fests arts) (normalize_name nm) = Some (festivals a)"
    by (simp add: fests_def dict_get_map a)
  then show ?thesis
    using a u by (simp add: merge_name_def Let_def fests_def dict_set_map dict_set_same)
qed

lemma has_url_fests:
  assumes "fests arts' = fests arts"
  shows "has_url url arts' k = has_url url arts k"
proof -
  have "map_option festivals (dict_get arts' k) = map_option festivals (dict_get arts k)"
    using dict_get_map [of festivals arts' k] dict_get_map [of festivals arts k] assms
    by (simp add: fests_def)
  then show ?thesis
    by (auto simp: has_url_def split: option.splits)
qed

lemma foldl_fests_fixed:
  "\<forall>n \<in> set ns. has_url (info_url fi) arts (normalize_name n) \<Longrightarrow>
   fests (foldl (merge_name now fi cls) arts ns) = fests arts"
proof (induction ns arbitrary: arts)
  case Nil
  then show ?case by simp
next
  case (Cons n ns)
  have f: "fests (merge_name now fi cls arts n) = fests arts"
    using Cons.prems by (simp add: merge_name_fests_fixed)
  have "\<forall>m \<in> set ns. has_url (info_url fi) (merge_name now fi cls arts n) (normalize_name m)"
    using Cons.prems has_url_fests [OF f] by simp
  from Cons.IH [OF this] f show ?case by simp
qed

lemma merge_artists_url_listed:
  "list_ex (\<lambda>f. f_url f = info_url fi) (kb_festivals (merge_artists d ns cls fi now))"
  by (auto simp: merge_artists_def Let_def list_ex_iff)

lemma length_fests: "fests a = fests b \<Longrightarrow> length a = length b"
  by (metis fests_def length_map)

subsection \<open>Claims about \<open>merge_artists\<close>\<close>




text \<open>
  C2: merging the same names, classifications and festival twice gives as many artist
  entries and as many festival records as merging them once. The festival records are
  the same list, and the artists have the same keys in the same order, each with the
  same festival references: the second merge adds no festival record and no festival
  reference. The two calls read the clock separately (\<open>now1\<close>, \<open>now2\<close>).
\<close>

theorem merge_artists_idempotent:
  "length (artists (merge_artists (merge_artists d ns cls fi now1) ns cls fi now2)) =
     length (artists (merge_artists d ns cls fi now1)) \<and>
   length (kb_festivals (merge_artists (merge_artists d ns cls fi now1) ns cls fi now2)) =
     length (kb_festivals (merge_artists d ns cls fi now1)) \<and>
   kb_festivals (merge_artists (merge_artists d ns cls fi now1) ns cls fi now2) =
     kb_festivals (merge_artists d ns cls fi now1) \<and>
   map (\<lambda>(key, a). (key, festivals a))
       (artists (merge_artists (merge_artists d ns cls fi now1) ns cls fi now2)) =
     map (\<lambda>(key, a). (key, festivals a)) (artists (merge_artists d ns cls fi now1))"
proof -
  let ?d1 = "merge_artists d ns cls fi now1"
  let ?d2 = "merge_artists ?d1 ns cls fi now2"
  have u: "list_ex (\<lambda>f. f_url f = info_url fi) (kb_festivals ?d1)"
    by (rule merge_artists_url_listed)
  have k: "kb_festivals ?d2 = kb_festivals ?d1"
    using u by (simp add: merge_artists_def [of ?d1] Let_def)
  have a1: "artists ?d1 = foldl (merge_name now1 fi cls) (artists d) ns"
    by (simp add: merge_artists_def Let_def)
  have "\<forall>n \<in> set ns. has_url (info_url fi) (artists ?d1) (normalize_name n)"
    by (simp add: a1 foldl_has_url_all)
  then have "fests (foldl (merge_name now2 fi cls) (artists ?d1) ns) = fests (artists ?d1)"
    by (rule foldl_fests_fixed)
  moreover have "artists ?d2 = foldl (merge_name now2 fi cls) (artists ?d1) ns"
    by (simp add: merge_artists_def [of ?d1] Let_def)
  ultimately have f: "fests (artists ?d2) = fests (artists ?d1)"
    by simp
  from k f length_fests [OF f] show ?thesis
    by (simp add: fests_def)
qed

text \<open>
  C10: a name whose key is in the store neither at the start of the call nor through an
  earlier name of the batch, and which the classifications do not mention, gets a
  record with \<open>genres = []\<close> and \<open>timbre = []\<close> in the iteration that reaches it. The
  record keeps both empty lists to the end of the call when no later name of the batch
  with the same key brings a non-empty genre list.
\<close>

theorem merge_artists_new_unclassified:
  assumes "normalize_name nm \<notin> set (dict_keys (artists d))"
    and "normalize_name nm \<notin> normalize_name ` set pre"
    and "cls nm = None"
  shows "dict_get (foldl (merge_name now fi cls) (artists d) (pre @ [nm])) (normalize_name nm) =
           Some \<lparr>genres = [], timbre = [], name = nm, festivals = [festival_entry_of fi now],
                 first_seen = now, last_updated = now\<rparr> \<and>
         artists (merge_artists d (pre @ nm # post) cls fi now) =
           foldl (merge_name now fi cls)
             (foldl (merge_name now fi cls) (artists d) (pre @ [nm])) post \<and>
         ((\<forall>n \<in> set post. normalize_name n = normalize_name nm \<longrightarrow>
              genres (classification_of cls n) = []) \<longrightarrow>
          (\<exists>a. dict_get (artists (merge_artists d (pre @ nm # post) cls fi now))
                  (normalize_name nm) = Some a \<and>
               genres a = [] \<and> timbre a = [] \<and> name a = nm \<and> first_seen a = now))"
proof -
  let ?k = "normalize_name nm"
  let ?mid = "foldl (merge_name now fi cls) (artists d) (pre @ [nm])"
  have "dict_get (foldl (merge_name now fi cls) (artists d) pre) ?k = None"
    using assms(1,2) by (simp add: foldl_get_other dict_get_None)
  then have mid: "dict_get ?mid ?k =
           Some \<lparr>genres = [], timbre = [], name = nm, festivals = [festival_entry_of fi now],
                 first_seen = now, last_updated = now\<rparr>"
    using assms(3) by (simp add: merge_name_new classification_of_def)
  have full: "artists (merge_artists d (pre @ nm # post) cls fi now) =
                foldl (merge_name now fi cls) ?mid post"
    by (simp add: merge_artists_def Let_def)
  show ?thesis
    using mid foldl_keeps_genres [OF mid, of post cls now fi] full by auto
qed

theorem merge_artists_new_unclassified_witness:
  "normalize_name ''Justice'' = ''justice'' \<and>
   dict_keys (artists daft_store) = [''daft punk''] \<and>
   dict_get (artists (merge_artists daft_store [''Daft Punk'', ''Justice''] Map.empty x_test ''t1''))
     ''justice'' =
     Some \<lparr>genres = [], timbre = [], name = ''Justice'',
           festivals = [\<lparr>f_name = ''X Fest'', f_url = ''https://x.test'', date_scraped = ''t1''\<rparr>],
           first_seen = ''t1'', last_updated = ''t1''\<rparr>"
proof -
  have n: "normalize_name ''Justice'' = ''justice''" "normalize_name ''Daft Punk'' = ''daft punk''"
    by code_simp+
  have k: "dict_keys (artists daft_store) = [''daft punk'']"
    by (simp add: daft_store_def dict_keys_def)
  have h1: "normalize_name ''Justice'' \<notin> set (dict_keys (artists daft_store))"
    by (simp add: n k)
  have h2: "normalize_name ''Justice'' \<notin> normalize_name ` set [''Daft Punk'']"
    by (simp add: n)
  have h3: "Map.empty ''Justice'' = (None :: classification option)"
    by simp
  show ?thesis
    using merge_artists_new_unclassified [OF h1 h2 h3, of "''t1''" x_test "[]"] n k
    by (simp add: festival_entry_of_def x_test_def)
qed

section \<open>Properties of the classifier\<close>

subsection \<open>Shape of a classification\<close>

lemma tags_to_genres_bounds: "tags_to_genres tags \<noteq> [] \<and> length (tags_to_genres tags) \<le> 3"
  by (auto simp: tags_to_genres_def Let_def)

lemma timbre_loop_bound:
  "length descriptors < 4 \<Longrightarrow> length (timbre_loop m tags descriptors) \<le> 4"
proof (induction m tags descriptors rule: timbre_loop.induct)
  case (1 tags descriptors)
  then show ?case by simp
next
  case (2 descriptor kws rest tags descriptors)
  then show ?case
    by (auto simp: Let_def)
qed

lemma tags_to_timbre_bounds: "tags_to_timbre tags \<noteq> [] \<and> length (tags_to_timbre tags) \<le> 4"
  using timbre_loop_bound [of "[]" TIMBRE_MAP tags]
  by (auto simp: tags_to_timbre_def Let_def)

lemma well_formed_unknown: "well_formed unknown_pair"
  by (simp add: well_formed_def unknown_pair_def)

lemma classify_artist_well_formed:
  "classify_artist service nm tr = Some (Inr c, tr') \<Longrightarrow> well_formed c"
  using tags_to_genres_bounds tags_to_timbre_bounds
  by (auto simp: classify_artist_def well_formed_def unknown_pair_def
      split: option.splits sum.splits prod.splits if_splits)

lemma classify_artist_no_artist:
  "search_artist service nm tr = Some (Inr None, tr1) \<Longrightarrow>
   classify_artist service nm tr = Some (Inr unknown_pair, tr1)"
  by (simp add: classify_artist_def)

lemma classify_loop_well_formed:
  "classify_loop service existing names cls tr = Some (cls', tr') \<Longrightarrow>
   (\<forall>n c. cls n = Some c \<longrightarrow> well_formed c) \<Longrightarrow>
   (\<forall>n c. cls' n = Some c \<longrightarrow> well_formed c)"
proof (induction names arbitrary: cls tr)
  case Nil
  then show ?case by simp
next
  case (Cons nm names)
  show ?case
  proof (cases "already_classified existing nm")
    case True
    with Cons show ?thesis by simp
  next
    case False
    from Cons.prems(1) False obtain r tr1 where
      ca: "classify_artist service nm tr = Some (r, tr1)"
      by (auto split: option.splits)
    show ?thesis
    proof (cases r)
      case (Inl e)
      with Cons.prems(1) False ca have
        "classify_loop service existing names (cls(nm \<mapsto> unknown_pair)) tr1 = Some (cls', tr')"
        by simp
      moreover have "\<forall>n c. (cls(nm \<mapsto> unknown_pair)) n = Some c \<longrightarrow> well_formed c"
        using Cons.prems(2) well_formed_unknown by auto
      ultimately show ?thesis by (rule Cons.IH)
    next
      case (Inr c)
      with Cons.prems(1) False ca have
        "classify_loop service existing names (cls(nm \<mapsto> c)) tr1 = Some (cls', tr')"
        by simp
      moreover have "\<forall>n c'. (cls(nm \<mapsto> c)) n = Some c' \<longrightarrow> well_formed c'"
        using Cons.prems(2) classify_artist_well_formed [of service nm tr c tr1] ca Inr by auto
      ultimately show ?thesis by (rule Cons.IH)
    qed
  qed
qed

text \<open>
  C9: \<open>_tags_to_genres\<close> yields one to three entries and \<open>_tags_to_timbre\<close> one to four,
  for every tag list, and \<open>["unknown"]\<close> for the empty one; \<open>classify_artist\<close> gives the
  unknown pair when the search finds no artist; every classification that
  \<open>classify_artist\<close> returns, and every value of the mapping that \<open>classify_batch\<close>
  returns, has one to three genres and one to four timbre descriptors.
\<close>

theorem classification_shape:
  "(1 \<le> length (tags_to_genres tags) \<and> length (tags_to_genres tags) \<le> 3) \<and>
   (1 \<le> length (tags_to_timbre tags) \<and> length (tags_to_timbre tags) \<le> 4) \<and>
   tags_to_genres [] = [''unknown''] \<and> tags_to_timbre [] = [''unknown''] \<and>
   (search_artist service nm tr = Some (Inr None, tr1) \<longrightarrow>
      classify_artist service nm tr = Some (Inr \<lparr>genres = [''unknown''], timbre = [''unknown'']\<rparr>, tr1)) \<and>
   (classify_artist service nm tr = Some (Inr c, tr') \<longrightarrow> well_formed c) \<and>
   (classify_batch service names existing_data = Some (classifications, tr'') \<longrightarrow>
      (\<forall>n c. classifications n = Some c \<longrightarrow> well_formed c))"
proof -
  have g: "1 \<le> length (tags_to_genres tags) \<and> length (tags_to_genres tags) \<le> 3"
    using tags_to_genres_bounds [of tags] by (cases "tags_to_genres tags") auto
  have ti: "1 \<le> length (tags_to_timbre tags) \<and> length (tags_to_timbre tags) \<le> 4"
    using tags_to_timbre_bounds [of tags] by (cases "tags_to_timbre tags") auto
  have e: "tags_to_genres [] = [''unknown''] \<and> tags_to_timbre [] = [''unknown'']"
    by (simp add: tags_to_genres_def tags_to_timbre_def)
  have n: "search_artist service nm tr = Some (Inr None, tr1) \<longrightarrow>
      classify_artist service nm tr = Some (Inr \<lparr>genres = [''unknown''], timbre = [''unknown'']\<rparr>, tr1)"
    using classify_artist_no_artist [of service nm tr tr1] by (simp add: unknown_pair_def)
  have a: "classify_artist service nm tr = Some (Inr c, tr') \<longrightarrow> well_formed c"
    using classify_artist_well_formed by blast
  have b: "classify_batch service names existing_data = Some (classifications, tr'') \<longrightarrow>
      (\<forall>n c. classifications n = Some c \<longrightarrow> well_formed c)"
    using classify_loop_well_formed [of service existing_data names Map.empty "[]" classifications tr'']
    by (simp add: classify_batch_def)
  from g ti e n a b show ?thesis
    by blast
qed

theorem classification_shape_witness:
  "map_option (\<lambda>(classifications, tr). classifications ''Daft Punk'')
     (classify_batch sample_service [''Daft Punk''] empty_data) =
     Some (Some \<lparr>genres = [''house'', ''electronic''], timbre = [''groovy'', ''electronic'']\<rparr>) \<and>
   well_formed \<lparr>genres = [''house'', ''electronic''], timbre = [''groovy'', ''electronic'']\<rparr>"
proof -
  let ?c = "\<lparr>genres = [''house'', ''electronic''], timbre = [''groovy'', ''electronic'']\<rparr>"
  have e: "map_option (\<lambda>(classifications, tr). classifications ''Daft Punk'')
     (classify_batch sample_service [''Daft Punk''] empty_data) = Some (Some ?c)"
    by code_simp
  then obtain classifications tr where
    r: "classify_batch sample_service [''Daft Punk''] empty_data = Some (classifications, tr)"
    and v: "classifications ''Daft Punk'' = Some ?c"
    by auto
  from classification_shape
         [of "[]" sample_service "''Daft Punk''" "[]" "[]" ?c "[]" "[''Daft Punk'']" empty_data
             classifications tr] r v
  have "well_formed ?c"
    by blast
  with e show ?thesis
    by simp
qed

subsection \<open>Requests of a batch\<close>

lemma search_artist_once:
  assumes "\<forall>body. service (length tr) (Search nm 1) \<noteq> Response 503 body"
  shows "\<exists>r. search_artist service nm tr =
               Some (r, tr @ [(Search nm 1, service (length tr) (Search nm 1))]) \<and>
             (carries_id (service (length tr) (Search nm 1)) \<longleftrightarrow>
                (\<exists>a i. r = Inr (Some a) \<and> mb_id a = Some i \<and> i \<noteq> []))"
  using assms
  by (subst search_artist.simps)
     (auto simp: carries_id_def split: response.splits option.splits list.splits)

lemma get_artist_tags_once:
  assumes "\<forall>body. service (length tr) (Tags artist_id) \<noteq> Response 503 body"
  shows "\<exists>r. get_artist_tags service artist_id tr =
               Some (r, tr @ [(Tags artist_id, service (length tr) (Tags artist_id))])"
  using assms
  by (subst get_artist_tags.simps)
     (auto split: response.splits option.splits)

lemma classify_artist_requests:
  assumes "\<forall>i req body. service i req \<noteq> Response 503 body"
  shows "\<exists>r new. classify_artist service nm tr = Some (r, tr @ new) \<and>
           length (filter is_search new) = 1 \<and>
           length (filter is_tags new) = length (filter found_id new) \<and>
           length (filter is_tags new) \<le> 1"
proof -
  let ?e = "(Search nm 1, service (length tr) (Search nm 1))"
  from search_artist_once [of service tr nm] assms obtain r1 where
    s: "search_artist service nm tr = Some (r1, tr @ [?e])"
    and c: "carries_id (snd ?e) \<longleftrightarrow> (\<exists>a i. r1 = Inr (Some a) \<and> mb_id a = Some i \<and> i \<noteq> [])"
    by auto
  have se: "is_search ?e" "\<not> is_tags ?e"
    by (simp_all add: is_search_def is_tags_def)
  show ?thesis
  proof (cases "carries_id (snd ?e)")
    case False
    with c s have "\<exists>r. classify_artist service nm tr = Some (r, tr @ [?e])"
      by (cases r1) (auto simp: classify_artist_def split: option.splits)
    with se False show ?thesis
      by (auto simp: found_id_def intro!: exI [of _ "[?e]"])
  next
    case True
    with c obtain a i where r1: "r1 = Inr (Some a)" "mb_id a = Some i" "i \<noteq> []"
      by auto
    let ?t = "(Tags i, service (length (tr @ [?e])) (Tags i))"
    from get_artist_tags_once [of service "tr @ [?e]" i] assms obtain r2 where
      t: "get_artist_tags service i (tr @ [?e]) = Some (r2, (tr @ [?e]) @ [?t])"
      by blast
    have "\<exists>r. classify_artist service nm tr = Some (r, tr @ [?e, ?t])"
      using s r1 t by (cases r2) (auto simp: classify_artist_def)
    moreover have "is_tags ?t" "\<not> is_search ?t"
      by (simp_all add: is_search_def is_tags_def)
    ultimately show ?thesis
      using se True by (auto simp: found_id_def intro!: exI [of _ "[?e, ?t]"])
  qed
qed

lemma classify_loop_requests:
  assumes "\<forall>i req body. service i req \<noteq> Response 503 body"
    and "\<forall>n \<in> set names. \<not> already_classified existing n"
  shows "\<exists>cls' new. classify_loop service existing names cls tr = Some (cls', tr @ new) \<and>
           length (filter is_search new) = length names \<and>
           length (filter is_tags new) = length (filter found_id new) \<and>
           length (filter is_tags new) \<le> length names"
  using assms(2)
proof (induction names arbitrary: cls tr)
  case Nil
  then show ?case by simp
next
  case (Cons nm names)
  from classify_artist_requests [OF assms(1), of nm tr] obtain r new1 where
    c: "classify_artist service nm tr = Some (r, tr @ new1)"
      "length (filter is_search new1) = 1"
      "length (filter is_tags new1) = length (filter found_id new1)"
      "length (filter is_tags new1) \<le> 1"
    by blast
  define cls1 where
    "cls1 = (case r of Inl e \<Rightarrow> cls(nm \<mapsto> unknown_pair) | Inr c \<Rightarrow> cls(nm \<mapsto> c))"
  have step: "classify_loop service existing (nm # names) cls tr =
              classify_loop service existing names cls1 (tr @ new1)"
    using Cons.prems c(1) by (cases r) (simp_all add: cls1_def)
  from Cons.IH [of cls1 "tr @ new1"] Cons.prems obtain cls' new2 where
    l: "classify_loop service existing names cls1 (tr @ new1) = Some (cls', (tr @ new1) @ new2)"
      "length (filter is_search new2) = length names"
      "length (filter is_tags new2) = length (filter found_id new2)"
      "length (filter is_tags new2) \<le> length names"
    by auto
  have "classify_loop service existing (nm # names) cls tr = Some (cls', tr @ (new1 @ new2))"
    using step l(1) by simp
  moreover have "length (filter is_search (new1 @ new2)) = length (nm # names)"
    using c(2) l(2) by simp
  moreover have "length (filter is_tags (new1 @ new2)) = length (filter found_id (new1 @ new2))"
    using c(3) l(3) by simp
  moreover have "length (filter is_tags (new1 @ new2)) \<le> length (nm # names)"
    using c(4) l(4) by simp
  ultimately show ?case
    by blast
qed

lemma trace_kinds: "length tr = length (filter is_search tr) + length (filter is_tags tr)"
  by (induction tr) (auto simp: is_search_def is_tags_def split: request.splits)

text \<open>
  C6: for a batch of names none of which is already classified in the store, against a
  service that never answers 503 and never fails, \<open>classify_batch\<close> returns, and the
  requests it has issued are one search for each name and, for each search whose answer
  carries an artist id, one tags request: at most one for each name, and nothing else.
\<close>

theorem classify_batch_requests:
  assumes "\<forall>i req. service i req \<noteq> Failed"
    and "\<forall>i req body. service i req \<noteq> Response 503 body"
    and "\<forall>n \<in> set names. \<not> already_classified existing_data n"
  shows "\<exists>classifications tr.
           classify_batch service names existing_data = Some (classifications, tr) \<and>
           length (filter is_search tr) = length names \<and>
           length (filter is_tags tr) = length (filter found_id tr) \<and>
           length (filter is_tags tr) \<le> length names \<and>
           length tr = length (filter is_search tr) + length (filter is_tags tr)"
proof -
  from classify_loop_requests [OF assms(2,3), of Map.empty "[]"] obtain cls' new where
    l: "classify_loop service existing_data names Map.empty [] = Some (cls', [] @ new)"
      "length (filter is_search new) = length names"
      "length (filter is_tags new) = length (filter found_id new)"
      "length (filter is_tags new) \<le> length names"
    by blast
  have "classify_batch service names existing_data = Some (cls', new)"
    using l(1) by (simp add: classify_batch_def)
  with l(2,3,4) trace_kinds [of new] show ?thesis
    by blast
qed

theorem classify_batch_requests_witness:
  "map_option (\<lambda>(classifications, tr). map fst tr)
     (classify_batch sample_service [''Daft Punk'', ''Nobody''] empty_data) =
     Some [Search ''Daft Punk'' 1, Tags ''056e4f3e'', Search ''Nobody'' 1] \<and>
   (\<exists>classifications tr.
      classify_batch sample_service [''Daft Punk'', ''Nobody''] empty_data =
        Some (classifications, tr) \<and>
      length (filter is_search tr) = length [''Daft Punk'', ''Nobody''] \<and>
      length (filter is_tags tr) = length (filter found_id tr) \<and>
      length (filter is_tags tr) \<le> length [''Daft Punk'', ''Nobody''] \<and>
      length tr = length (filter is_search tr) + length (filter is_tags tr))"
proof -
  have h1: "\<forall>i req. sample_service i req \<noteq> Failed"
    by (simp add: sample_service_def split: request.splits)
  have h2: "\<forall>i req body. sample_service i req \<noteq> Response 503 body"
    by (simp add: sample_service_def split: request.splits)
  have h3: "\<forall>n \<in> set [''Daft Punk'', ''Nobody'']. \<not> already_classified empty_data n"
    by (simp add: already_classified_def empty_data_def)
  have e: "map_option (\<lambda>(classifications, tr). map fst tr)
     (classify_batch sample_service [''Daft Punk'', ''Nobody''] empty_data) =
     Some [Search ''Daft Punk'' 1, Tags ''056e4f3e'', Search ''Nobody'' 1]"
    by code_simp
  from e classify_batch_requests [OF h1 h2 h3] show ?thesis
    by (rule conjI)
qed

subsection \<open>Retries on status 503\<close>

lemma search_artist_busy:
  assumes "search_artist service nm tr = Some y"
  shows "\<exists>i req. service i req \<noteq> Response 503 None"
proof (rule search_artist.raw_induct
         [where P = "\<lambda>service nm tr y. \<exists>i req. service i req \<noteq> Response 503 None",
          OF _ assms])
  fix f :: "service \<Rightarrow> string \<Rightarrow> trace \<Rightarrow> ((error + mb_artist option) \<times> trace) option"
  fix service nm tr y
  assume ih: "\<And>service nm tr y. f service nm tr = Some y \<Longrightarrow>
                \<exists>i req. service i req \<noteq> Response 503 None"
  assume step: "(case service (length tr) (Search nm 1) of
        Failed \<Rightarrow> Some (Inl RequestException, tr @ [(Search nm 1, Failed)])
      | Response status body \<Rightarrow>
          if status = 503
          then f service nm (tr @ [(Search nm 1, Response status body)])
          else if 400 \<le> status \<and> status < 600
          then Some (Inl HTTPError, tr @ [(Search nm 1, Response status body)])
          else (case body of
                  None \<Rightarrow> Some (Inl JSONDecodeError, tr @ [(Search nm 1, Response status body)])
                | Some b \<Rightarrow>
                    Some (Inr (case body_artists b of [] \<Rightarrow> None | a # _ \<Rightarrow> Some a),
                          tr @ [(Search nm 1, Response status body)]))) = Some y"
  show "\<exists>i req. service i req \<noteq> Response 503 None"
  proof (cases "service (length tr) (Search nm 1) = Response 503 None")
    case True
    with step have "f service nm (tr @ [(Search nm 1, Response 503 None)]) = Some y"
      by simp
    then show ?thesis by (rule ih)
  next
    case False
    then show ?thesis by blast
  qed
qed

lemma search_artist_always_503: "search_artist always_503 nm tr = None"
proof (cases "search_artist always_503 nm tr")
  case None
  then show ?thesis .
next
  case (Some y)
  from search_artist_busy [OF Some] show ?thesis
    by (simp add: always_503_def)
qed

lemma get_artist_tags_busy:
  assumes "get_artist_tags service artist_id tr = Some y"
  shows "\<exists>i req. service i req \<noteq> Response 503 None"
proof (rule get_artist_tags.raw_induct
         [where P = "\<lambda>service artist_id tr y. \<exists>i req. service i req \<noteq> Response 503 None",
          OF _ assms])
  fix f :: "service \<Rightarrow> string \<Rightarrow> trace \<Rightarrow> ((error + string list) \<times> trace) option"
  fix service artist_id tr y
  assume ih: "\<And>service artist_id tr y. f service artist_id tr = Some y \<Longrightarrow>
                \<exists>i req. service i req \<noteq> Response 503 None"
  assume step: "(case service (length tr) (Tags artist_id) of
        Failed \<Rightarrow> Some (Inl RequestException, tr @ [(Tags artist_id, Failed)])
      | Response status body \<Rightarrow>
          if status = 503
          then f service artist_id (tr @ [(Tags artist_id, Response status body)])
          else if status \<noteq> 200
          then Some (Inr [], tr @ [(Tags artist_id, Response status body)])
          else (case body of
                  None \<Rightarrow>
                    Some (Inl JSONDecodeError, tr @ [(Tags artist_id, Response status body)])
                | Some b \<Rightarrow>
                    Some (tag_names (sort_tags (body_tags b)),
                          tr @ [(Tags artist_id, Response status body)]))) = Some y"
  show "\<exists>i req. service i req \<noteq> Response 503 None"
  proof (cases "service (length tr) (Tags artist_id) = Response 503 None")
    case True
    with step have "f service artist_id (tr @ [(Tags artist_id, Response 503 None)]) = Some y"
      by simp
    then show ?thesis by (rule ih)
  next
    case False
    then show ?thesis by blast
  qed
qed

lemma get_artist_tags_always_503: "get_artist_tags always_503 artist_id tr = None"
proof (cases "get_artist_tags always_503 artist_id tr")
  case None
  then show ?thesis .
next
  case (Some y)
  from get_artist_tags_busy [OF Some] show ?thesis
    by (simp add: always_503_def)
qed

text \<open>
  The validator stops retrying: with \<open>_retries\<close> at most 3 it issues at most
  \<open>4 - _retries\<close> requests, and against the service that is always busy it gives up
  with \<open>None\<close> after four.
\<close>

lemma validate_requests_bounded:
  "retries \<le> 3 \<Longrightarrow>
   length (snd (validate_artist_musicbrainz service nm retries tr)) \<le> length tr + (4 - retries)"
proof (induction service nm retries tr rule: validate_artist_musicbrainz.induct)
  case (1 service nm retries tr)
  show ?case
  proof (cases "service (length tr) (Search nm 3)")
    case Failed
    with "1.prems" show ?thesis
      by (subst validate_artist_musicbrainz.simps) simp
  next
    case (Response status body)
    show ?thesis
    proof (cases "status = 503 \<and> retries < 3")
      case True
      have "validate_artist_musicbrainz service nm retries tr =
            validate_artist_musicbrainz service nm (retries + 1)
              (tr @ [(Search nm 3, Response status body)])"
        using Response True by (subst validate_artist_musicbrainz.simps) simp
      moreover have "length (snd (validate_artist_musicbrainz service nm (retries + 1)
              (tr @ [(Search nm 3, Response status body)]))) \<le>
            length (tr @ [(Search nm 3, Response status body)]) + (4 - (retries + 1))"
        using "1.IH" [OF Response True] True by simp
      ultimately show ?thesis
        using True by simp arith
    next
      case False
      with Response "1.prems" show ?thesis
        by (subst validate_artist_musicbrainz.simps) (auto split: option.splits)
    qed
  qed
qed

lemma validate_always_503:
  "validate_artist_musicbrainz always_503 nm 0 [] =
     (None, replicate 4 (Search nm 3, Response 503 None))"
  by (simp add: validate_artist_musicbrainz.simps always_503_def numeral_eq_Suc)

text \<open>
  C3 fails for the two calls of the classifier. Against a service that answers 503 to
  every request neither \<open>_search_artist\<close> nor \<open>_get_artist_tags\<close> returns, and
  \<open>classify_batch\<close> on one new name does not return either; against a service that
  is busy five times the search is issued six times and then succeeds, where three
  attempts were promised. Only the validator has the bound.
\<close>

theorem classifier_retries_unbounded:
  "search_artist always_503 nm tr = None \<and>
   get_artist_tags always_503 artist_id tr = None \<and>
   classify_batch always_503 [nm] empty_data = None \<and>
   map_option (\<lambda>(r, tr). (r, length tr)) (search_artist busy_service ''Daft Punk'' []) =
     Some (Inr (Some \<lparr>mb_id = Some ''056e4f3e'', mb_name = Some ''Daft Punk'',
                      mb_score = Some 100\<rparr>), 6) \<and>
   validate_artist_musicbrainz always_503 nm 0 [] =
     (None, replicate 4 (Search nm 3, Response 503 None))"
proof -
  have b: "classify_batch always_503 [nm] empty_data = None"
    by (simp add: classify_batch_def already_classified_def empty_data_def
        classify_artist_def search_artist_always_503)
  have s: "map_option (\<lambda>(r, tr). (r, length tr)) (search_artist busy_service ''Daft Punk'' []) =
     Some (Inr (Some \<lparr>mb_id = Some ''056e4f3e'', mb_name = Some ''Daft Punk'',
                      mb_score = Some 100\<rparr>), 6)"
    by code_simp
  from b s search_artist_always_503 get_artist_tags_always_503 validate_always_503
  show ?thesis
    by simp
qed

section \<open>Properties of the validator\<close>

lemma zip_mismatches:
  "length (filter (\<lambda>(x, y). x \<noteq> y) (zip xs ys)) = mismatches xs ys"
proof (induction xs arbitrary: ys)
  case Nil
  then show ?case by (simp add: mismatches_def)
next
  case (Cons x xs)
  show ?case
  proof (cases ys)
    case Nil
    then show ?thesis by (simp add: mismatches_def)
  next
    case (Cons y ys')
    have "[0..<Suc (min (length xs) (length ys'))] =
          0 # map Suc [0..<min (length xs) (length ys')]"
      by (simp add: upt_conv_Cons map_Suc_upt del: upt_Suc)
    then have "mismatches (x # xs) (y # ys') = (if x \<noteq> y then 1 else 0) + mismatches xs ys'"
      by (simp add: mismatches_def filter_map comp_def del: upt_Suc)
    with Cons.IH [of ys'] Cons show ?thesis
      by simp
  qed
qed

lemma mismatches_sym: "mismatches a b = mismatches b a"
  by (simp add: mismatches_def min.commute neq_commute)

lemma fuzzy_match_spec: "fuzzy_match a b = bounded_edit_check a b"
proof (cases "length a \<le> length b")
  case True
  then show ?thesis
    by (auto simp: fuzzy_match_def bounded_edit_check_def length_difference_def zip_mismatches)
next
  case False
  then show ?thesis
    using mismatches_sym [of a b]
    by (auto simp: fuzzy_match_def bounded_edit_check_def length_difference_def zip_mismatches)
qed

lemma match_artists_spec: "match_artists (strip (lower q)) cands = first_accepted q cands"
  by (induction cands)
     (auto simp: first_accepted_def spec_accepts_def names_equal_def fuzzy_match_spec)

lemma validate_artist_last:
  "fst (validate_artist_musicbrainz service q retries tr) =
     spec_answer q (snd (last (snd (validate_artist_musicbrainz service q retries tr))))"
proof (induction service q retries tr rule: validate_artist_musicbrainz.induct)
  case (1 service nm retries tr)
  show ?case
  proof (cases "service (length tr) (Search nm 3)")
    case Failed
    then show ?thesis
      by (subst (1 2) validate_artist_musicbrainz.simps) (simp add: spec_answer_def)
  next
    case (Response status body)
    show ?thesis
    proof (cases "status = 503 \<and> retries < 3")
      case True
      have "validate_artist_musicbrainz service nm retries tr =
            validate_artist_musicbrainz service nm (retries + 1)
              (tr @ [(Search nm 3, Response status body)])"
        using Response True by (subst validate_artist_musicbrainz.simps) simp
      with "1.IH" [OF Response True] show ?thesis
        by simp
    next
      case False
      with Response show ?thesis
        by (subst (1 2) validate_artist_musicbrainz.simps)
           (auto simp: spec_answer_def match_artists_spec split: option.splits)
    qed
  qed
qed

text \<open>
  C4: the check of \<open>_fuzzy_match\<close> is the bounded edit-distance check of the
  specification; the loop over the candidates returns the name, in the spelling of the
  service, of the first candidate that the specification accepts, and none when it
  accepts no candidate; and the validator answers as the specification does on the last
  response it got: none when the request failed, when the status is not 200 or when
  the body cannot be read.
\<close>

theorem validate_artist_spec:
  "fuzzy_match a b = bounded_edit_check a b \<and>
   match_artists (strip (lower q)) [cand] =
     (if spec_accepts q cand then Some (name_of cand) else None) \<and>
   match_artists (strip (lower q)) cands = first_accepted q cands \<and>
   fst (validate_artist_musicbrainz service q retries tr) =
     spec_answer q (snd (last (snd (validate_artist_musicbrainz service q retries tr))))"
proof -
  have "match_artists (strip (lower q)) [cand] = first_accepted q [cand]"
    by (rule match_artists_spec)
  then have "match_artists (strip (lower q)) [cand] =
     (if spec_accepts q cand then Some (name_of cand) else None)"
    by (simp add: first_accepted_def)
  with fuzzy_match_spec [of a b] match_artists_spec [of q cands]
    validate_artist_last [of service q retries tr]
  show ?thesis
    by simp
qed

theorem validate_artist_spec_witness:
  "fst (validate_artist_musicbrainz typo_service ''daft pnuk'' 0 []) = Some ''Daft Punk'' \<and>
   \<not> spec_accepts ''daft pnuk''
       \<lparr>mb_id = Some ''0ab1'', mb_name = Some ''Daft Funk'', mb_score = Some 95\<rparr> \<and>
   spec_accepts ''daft pnuk''
       \<lparr>mb_id = Some ''056e4f3e'', mb_name = Some ''Daft Punk'', mb_score = Some 85\<rparr>"
proof -
  let ?funk = "\<lparr>mb_id = Some ''0ab1'', mb_name = Some ''Daft Funk'', mb_score = Some 95\<rparr>"
  have t: "snd (last (snd (validate_artist_musicbrainz typo_service ''daft pnuk'' 0 []))) =
           typo_service 0 (Search ''daft pnuk'' 3)"
    by code_simp
  have s: "spec_answer ''daft pnuk'' (typo_service 0 (Search ''daft pnuk'' 3)) = Some ''Daft Punk''"
    by code_simp
  have r: "\<not> spec_accepts ''daft pnuk'' ?funk"
    by code_simp
  have a: "spec_accepts ''daft pnuk''
       \<lparr>mb_id = Some ''056e4f3e'', mb_name = Some ''Daft Punk'', mb_score = Some 85\<rparr>"
    by code_simp
  have "fst (validate_artist_musicbrainz typo_service ''daft pnuk'' 0 []) =
        spec_answer ''daft pnuk''
          (snd (last (snd (validate_artist_musicbrainz typo_service ''daft pnuk'' 0 []))))"
    using validate_artist_spec [of "[]" "[]" "''daft pnuk''" ?funk "[]" typo_service 0 "[]"]
    by (elim conjE)
  with t s r a show ?thesis
    by simp
qed

section \<open>Properties of the noise filter\<close>

lemma noise_june_14: "is_ocr_noise ''June 14''"
  by code_simp

lemma noise_vip: "is_ocr_noise ''VIP''"
  by code_simp

lemma noise_main_stage_2: "\<not> is_ocr_noise ''Main Stage 2''"
  by code_simp

lemma noise_fred_again: "is_ocr_noise ''Fred again..''"
  by code_simp

lemma noise_main_stage: "is_ocr_noise ''Main Stage''"
  by code_simp

lemma noise_stage_2: "is_ocr_noise ''Stage 2''"
  by code_simp

text \<open>
  Every candidate with a full stop, an exclamation mark, a question mark or a semicolon
  is noise, wherever the character stands.
\<close>

lemma re_search_sentence_chars:
  "c \<in> set ''.!?;'' \<Longrightarrow> c \<in> set s \<Longrightarrow> re_search SENTENCE_CHARS s"
  by (induction s) (auto simp: re_search_def SENTENCE_CHARS_def one_of_def)

lemma sentence_chars_are_noise:
  assumes "c \<in> set ''.!?;''" and "c \<in> set (strip s)"
  shows "is_ocr_noise s"
  using re_search_sentence_chars [OF assms]
  by (simp add: is_ocr_noise_def Let_def)

text \<open>
  C5, as stated, fails on two of its four inputs: "Main Stage 2" is not noise, and
  "Fred again.." is.
\<close>

theorem is_ocr_noise_samples_differ:
  "is_ocr_noise ''Main Stage 2'' = False \<and> is_ocr_noise ''Fred again..'' = True"
  using noise_main_stage_2 noise_fred_again by simp

text \<open>
  C5, amended: "June 14" and "VIP" are noise; "Fred again.." is noise, for its full
  stops; "Main Stage 2" is not noise: the vocabulary is matched against the whole
  candidate, and it has "Main Stage" and "Stage 2" but not "Main Stage 2".
\<close>

theorem is_ocr_noise_samples:
  "is_ocr_noise ''June 14'' \<and> is_ocr_noise ''VIP'' \<and> \<not> is_ocr_noise ''Main Stage 2'' \<and>
   is_ocr_noise ''Fred again..'' \<and> is_ocr_noise ''Main Stage'' \<and> is_ocr_noise ''Stage 2''"
  using noise_june_14 noise_vip noise_main_stage_2 noise_fred_again noise_main_stage
    noise_stage_2
  by simp

section \<open>Properties of the name normalizer\<close>

text \<open>
  C8: of the two names "Artist A b2b Artist B (Sunrise Set)" and "artist a" the
  normalizer keeps "Artist A" and "Artist B". The first name is split at the marker,
  the annotation in parentheses is removed from its second part, and the second name
  is dropped: its lowered form is that of "Artist A".
\<close>

theorem clean_artist_names_example:
  "re_split B2B ''Artist A b2b Artist B (Sunrise Set)'' [] =
     [''Artist A'', ''Artist B (Sunrise Set)''] \<and>
   clean_parts ''Artist A b2b Artist B (Sunrise Set)'' = [''Artist A'', ''Artist B''] \<and>
   clean_parts ''artist a'' = [''artist a''] \<and>
   lower ''Artist A'' = lower ''artist a'' \<and>
   clean_artist_names [''Artist A b2b Artist B (Sunrise Set)'', ''artist a''] =
     [''Artist A'', ''Artist B'']"
proof -
  have s: "re_split B2B ''Artist A b2b Artist B (Sunrise Set)'' [] =
     [''Artist A'', ''Artist B (Sunrise Set)'']"
    by code_simp
  have p: "clean_parts ''Artist A b2b Artist B (Sunrise Set)'' = [''Artist A'', ''Artist B'']"
    by code_simp
  have q: "clean_parts ''artist a'' = [''artist a'']"
    by code_simp
  have l: "lower ''Artist A'' = lower ''artist a''"
    by code_simp
  have c: "clean_artist_names [''Artist A b2b Artist B (Sunrise Set)'', ''artist a''] =
     [''Artist A'', ''Artist B'']"
    by code_simp
  from s p q l c show ?thesis
    by simp
qed

section \<open>Properties of the recommender\<close>













end
